theory Spec2Isabelle
  imports Complex_Main "HOL-Library.Log_Nat"
begin

section \<open>Authentication state (App.js, AuthProvider)\<close>

text \<open>
  The provider keeps two pieces of React state, \<open>user\<close> (initially null) and \<open>loading\<close>
  (initially true), next to the browser's localStorage, a dictionary from keys to
  strings. A null user is \<open>None\<close>. The user object is whatever the server returned; its
  type is left open, and the library function JSON.stringify is a parameter.
\<close>

type_synonym localStorage = "string \<rightharpoonup> string"

record 'u auth =
  storage :: localStorage
  user :: "'u option"
  loading :: bool

definition login :: "('u \<Rightarrow> string) \<Rightarrow> string \<Rightarrow> 'u \<Rightarrow> 'u auth \<Rightarrow> 'u auth" where
  "login stringify token userData a =
     a\<lparr>storage := (storage a)(''token'' \<mapsto> token, ''user'' \<mapsto> stringify userData),
       user := Some userData\<rparr>"

definition logout :: "'u auth \<Rightarrow> 'u auth" where
  "logout a =
     a\<lparr>storage := (storage a)(''token'' := None, ''user'' := None),
       user := None\<rparr>"

text \<open>The signed-out authentication state: neither entry is stored and no user is set.\<close>

definition signed_out :: "'u auth \<Rightarrow> bool" where
  "signed_out a \<longleftrightarrow> storage a ''token'' = None \<and> storage a ''user'' = None \<and> user a = None"

section \<open>JavaScript numbers (as far as the donate page uses them)\<close>

text \<open>
  A JavaScript number is an IEEE-754 double. A finite double is represented by its exact
  rational value; the two zeros are one value here, which the page cannot tell apart
  (\<open>toFixed\<close> prints both as 0.00 and JSON writes both as 0).
\<close>

datatype number = NaN | PosInfinity | NegInfinity | Finite rat

text \<open>
  Rounding a rational to the nearest double, ties to the even significand. The exponent
  of \<open>x\<close> is the \<open>e\<close> with \<open>2\<^sup>e \<le> |x| < 2\<^sup>e\<^sup>+\<^sup>1\<close>; the doubles around \<open>x\<close> are the
  multiples of \<open>2\<^sup>q\<close> with \<open>q = max e (-1022) - 52\<close>, which covers the subnormal range; a
  result of \<open>2\<^sup>1\<^sup>0\<^sup>2\<^sup>4\<close> or more is an infinity.
\<close>

definition exponent :: "rat \<Rightarrow> int" where
  "exponent x =
     (let (p, q) = quotient_of \<bar>x\<bar>;
          e = bitlen p - bitlen q
      in if 2 powi e \<le> \<bar>x\<bar> then e else e - 1)"

definition round_half_even :: "rat \<Rightarrow> int" where
  "round_half_even y =
     (let n = \<lfloor>y\<rfloor>; d = y - of_int n
      in if d < 1 / 2 then n
         else if 1 / 2 < d then n + 1
         else if even n then n else n + 1)"

definition to_double :: "rat \<Rightarrow> number" where
  "to_double x =
     (if x = 0 then Finite 0
      else
        let q = max (exponent x) (- 1022) - 52;
            r = of_int (round_half_even (\<bar>x\<bar> / 2 powi q)) * 2 powi q
        in if 2 powi 1024 \<le> r then (if 0 < x then PosInfinity else NegInfinity)
           else Finite (sgn x * r))"

fun negate :: "number \<Rightarrow> number" where
  "negate NaN = NaN"
| "negate PosInfinity = NegInfinity"
| "negate NegInfinity = PosInfinity"
| "negate (Finite x) = Finite (- x)"

text \<open>The operator \<open>*\<close>: the exact product of two finite doubles, rounded.\<close>

fun mul :: "number \<Rightarrow> number \<Rightarrow> number" where
  "mul NaN _ = NaN"
| "mul _ NaN = NaN"
| "mul (Finite x) (Finite y) = to_double (x * y)"
| "mul (Finite x) i = (if x = 0 then NaN else if 0 < x then i else negate i)"
| "mul i (Finite y) = (if y = 0 then NaN else if 0 < y then i else negate i)"
| "mul PosInfinity i = i"
| "mul NegInfinity i = negate i"

text \<open>
  \<open>x.toFixed(f)\<close> returns a string of digits; it is represented by the number the string
  denotes. The method works on the exact value of the double: it rounds the magnitude to
  the nearest multiple of \<open>10\<^sup>-\<^sup>f\<close>, the larger one at a tie, and from \<open>10\<^sup>2\<^sup>1\<close> on it
  falls back to the plain conversion of \<open>x\<close>, which is represented by \<open>x\<close> itself.
\<close>

fun toFixed :: "nat \<Rightarrow> number \<Rightarrow> number" where
  "toFixed f (Finite x) =
     (if 10 ^ 21 \<le> \<bar>x\<bar> then Finite x
      else Finite (sgn x * of_int \<lfloor>\<bar>x\<bar> * 10 ^ f + 1 / 2\<rfloor> / 10 ^ f))"
| "toFixed f n = n"

subsection \<open>parseFloat\<close>

text \<open>
  The global function skips leading white space and reads the longest prefix that is a
  decimal literal: an optional sign, then \<open>Infinity\<close> or digits with an optional fraction
  and an optional exponent. Without such a prefix the result is NaN; otherwise it is the
  double nearest to the decimal read, as the engines compute it (the language standard
  also lets an engine drop the digits after the twentieth). A string is the list of the bytes of its UTF-8
  form, so the white space characters beyond ASCII are sequences of two or three bytes:
  U+00A0, U+1680, U+2000 to U+200A, U+2028, U+2029, U+202F, U+205F, U+3000 and U+FEFF.
\<close>

definition is_white_space1 :: "char \<Rightarrow> bool" where
  "is_white_space1 c \<longleftrightarrow>
     c \<in> set [CHR 0x09, CHR 0x0A, CHR 0x0B, CHR 0x0C, CHR 0x0D, CHR 0x20]"

definition is_white_space2 :: "char \<Rightarrow> char \<Rightarrow> bool" where
  "is_white_space2 c d \<longleftrightarrow> c = CHR 0xC2 \<and> d = CHR 0xA0"

definition is_white_space3 :: "char \<Rightarrow> char \<Rightarrow> char \<Rightarrow> bool" where
  "is_white_space3 c d e \<longleftrightarrow>
     (c = CHR 0xE1 \<and> d = CHR 0x9A \<and> e = CHR 0x80) \<or>
     (c = CHR 0xE2 \<and> d = CHR 0x80 \<and>
        e \<in> set [CHR 0x80, CHR 0x81, CHR 0x82, CHR 0x83, CHR 0x84, CHR 0x85, CHR 0x86,
                 CHR 0x87, CHR 0x88, CHR 0x89, CHR 0x8A, CHR 0xA8, CHR 0xA9, CHR 0xAF]) \<or>
     (c = CHR 0xE2 \<and> d = CHR 0x81 \<and> e = CHR 0x9F) \<or>
     (c = CHR 0xE3 \<and> d = CHR 0x80 \<and> e = CHR 0x80) \<or>
     (c = CHR 0xEF \<and> d = CHR 0xBB \<and> e = CHR 0xBF)"

fun trim_start :: "string \<Rightarrow> string" where
  "trim_start (c # d # e # r) =
     (if is_white_space1 c then trim_start (d # e # r)
      else if is_white_space2 c d then trim_start (e # r)
      else if is_white_space3 c d e then trim_start r
      else c # d # e # r)"
| "trim_start [c, d] =
     (if is_white_space1 c then trim_start [d]
      else if is_white_space2 c d then []
      else [c, d])"
| "trim_start [c] = (if is_white_space1 c then [] else [c])"
| "trim_start [] = []"

definition is_digit :: "char \<Rightarrow> bool" where
  "is_digit c \<longleftrightarrow> c \<in> set ''0123456789''"

definition digit_value :: "char \<Rightarrow> int" where
  "digit_value c =
     (case map_of (zip ''0123456789'' [0, 1, 2, 3, 4, 5, 6, 7, 8, 9]) c of
        Some d \<Rightarrow> d | None \<Rightarrow> 0)"

definition decimal_digits :: "string \<Rightarrow> int" where
  "decimal_digits ds = foldl (\<lambda>n c. 10 * n + digit_value c) 0 ds"

text \<open>The exponent after the mantissa; 0 when no complete exponent part follows.\<close>

definition exponent_part :: "string \<Rightarrow> int" where
  "exponent_part s =
     (case s of
        [] \<Rightarrow> 0
      | c # r \<Rightarrow>
          if c = CHR ''e'' \<or> c = CHR ''E'' then
            (case r of
               [] \<Rightarrow> 0
             | d # r' \<Rightarrow>
                 if d = CHR ''-'' then - decimal_digits (takeWhile is_digit r')
                 else if d = CHR ''+'' then decimal_digits (takeWhile is_digit r')
                 else decimal_digits (takeWhile is_digit r))
          else 0)"

definition scale10 :: "rat \<Rightarrow> int \<Rightarrow> rat" where
  "scale10 m e = (if 0 \<le> e then m * 10 ^ nat e else m / 10 ^ nat (- e))"

text \<open>
  What a string reads as, before any rounding: nothing, an infinity (negative or not), or
  the exact value of the decimal.
\<close>

datatype literal = NotANumber | Unbounded bool | Decimal rat

fun minus_literal :: "literal \<Rightarrow> literal" where
  "minus_literal NotANumber = NotANumber"
| "minus_literal (Unbounded neg) = Unbounded (\<not> neg)"
| "minus_literal (Decimal d) = Decimal (- d)"

definition unsigned_literal :: "string \<Rightarrow> literal" where
  "unsigned_literal s =
     (if take 8 s = ''Infinity'' then Unbounded False
      else
        let ip = takeWhile is_digit s;
            r1 = dropWhile is_digit s;
            fp = (case r1 of [] \<Rightarrow> []
                  | c # r \<Rightarrow> if c = CHR ''.'' then takeWhile is_digit r else []);
            r2 = (case r1 of [] \<Rightarrow> []
                  | c # r \<Rightarrow> if c = CHR ''.'' then dropWhile is_digit r else r1)
        in if ip = [] \<and> fp = [] then NotANumber
           else Decimal (scale10 (of_int (decimal_digits (ip @ fp)) / 10 ^ length fp)
                                (exponent_part r2)))"

definition str_decimal_literal :: "string \<Rightarrow> literal" where
  "str_decimal_literal s =
     (case trim_start s of
        [] \<Rightarrow> NotANumber
      | c # r \<Rightarrow>
          if c = CHR ''-'' then minus_literal (unsigned_literal r)
          else if c = CHR ''+'' then unsigned_literal r
          else unsigned_literal (c # r))"

definition parseFloat :: "string \<Rightarrow> number" where
  "parseFloat s =
     (case str_decimal_literal s of
        NotANumber \<Rightarrow> NaN
      | Unbounded neg \<Rightarrow> (if neg then NegInfinity else PosInfinity)
      | Decimal d \<Rightarrow> to_double d)"

section \<open>The donate page (App.js, DonatePage)\<close>

text \<open>
  The component state. The page's own \<open>loading\<close> flag is named \<open>submitting\<close> here, the
  name \<open>loading\<close> being taken by the authentication state.
\<close>

record donate_state =
  amount :: string
  donorName :: string
  donorPhone :: string
  message :: string
  submitted :: bool
  submitting :: bool

text \<open>
  The "Your Impact" box of the form: three displayed rupee amounts. The charity
  contribution is the literal text 5; the other two are computed from the amount field,
  where \<open>amount || 0\<close> replaces the empty string by 0. The literals 0.02 and 0.60 are the
  doubles nearest to these decimals.
\<close>

record breakdown =
  charity_contribution :: number
  vip_gift_income :: number
  family_equity :: number

definition or_zero :: "string \<Rightarrow> string" where
  "or_zero s = (if s = [] then ''0'' else s)"

definition donation_breakdown :: "string \<Rightarrow> breakdown" where
  "donation_breakdown amt =
     \<lparr>charity_contribution = Finite 5,
      vip_gift_income = toFixed 2 (mul (parseFloat (or_zero amt)) (to_double (2 / 100))),
      family_equity = toFixed 2 (mul (parseFloat (or_zero amt)) (to_double (60 / 100)))\<rparr>"

text \<open>
  What the component renders: the success card, which echoes the amount field as it
  is, or the page with the login prompt (no user) or the form (a user), whose submit
  button is disabled while a submission is under way.
\<close>

datatype donate_view =
  SuccessCard string
| LoginPrompt
| DonationForm breakdown bool

definition DonatePage :: "'u auth \<Rightarrow> donate_state \<Rightarrow> donate_view" where
  "DonatePage a s =
     (if submitted s then SuccessCard (amount s)
      else (case user a of
              None \<Rightarrow> LoginPrompt
            | Some _ \<Rightarrow> DonationForm (donation_breakdown (amount s)) (submitting s)))"

fun shown_breakdown :: "donate_view \<Rightarrow> breakdown option" where
  "shown_breakdown (DonationForm b _) = Some b"
| "shown_breakdown _ = None"

subsection \<open>Editing the form\<close>

text \<open>The four inputs of the form and their \<open>onChange\<close> handlers.\<close>

datatype edit =
  SetAmount string
| SetDonorName string
| SetDonorPhone string
| SetMessage string

fun change :: "edit \<Rightarrow> donate_state \<Rightarrow> donate_state" where
  "change (SetAmount v) s = s\<lparr>amount := v\<rparr>"
| "change (SetDonorName v) s = s\<lparr>donorName := v\<rparr>"
| "change (SetDonorPhone v) s = s\<lparr>donorPhone := v\<rparr>"
| "change (SetMessage v) s = s\<lparr>message := v\<rparr>"

fun changes :: "edit list \<Rightarrow> donate_state \<Rightarrow> donate_state" where
  "changes [] s = s"
| "changes (e # es) s = changes es (change e s)"


subsection \<open>Submitting the form\<close>

text \<open>
  The effects of a handler, in order: a client-side navigation, a POST request with its
  JSON body (field names and values, in the order written), a console message. The
  awaited request either is fulfilled or rejected; which one is an input.
\<close>

datatype json = JNumber number | JString string

datatype effect =
  Navigate string
| Post string "(string \<times> json) list"
| ConsoleError string

datatype outcome = Fulfilled | Rejected

definition donation_body :: "donate_state \<Rightarrow> (string \<times> json) list" where
  "donation_body s =
     [(''amount'', JNumber (parseFloat (amount s))),
      (''donor_name'', JString (donorName s)),
      (''donor_phone'', JString (donorPhone s)),
      (''message'', JString (message s))]"

text \<open>
  \<open>handleSubmit\<close>, from the submit event to the end of its \<open>finally\<close> block. Without a
  user it returns at once. With a user it sets the flag, sends the request built from
  the form as it is then, and waits. While it waits only the submit button is disabled:
  the inputs stay editable, and \<open>pending\<close> is the list of the edits made in that time. The
  setters after the wait act on the state as it is then.
\<close>

definition handleSubmit ::
  "'u auth \<Rightarrow> edit list \<Rightarrow> outcome \<Rightarrow> donate_state \<Rightarrow> donate_state \<times> effect list" where
  "handleSubmit a pending res s =
     (case user a of
        None \<Rightarrow> (s, [Navigate ''/login''])
      | Some _ \<Rightarrow>
          (let request = Post ''/donations'' (donation_body s);
               s1 = changes pending (s\<lparr>submitting := True\<rparr>)
           in case res of
                Fulfilled \<Rightarrow> (s1\<lparr>submitted := True, submitting := False\<rparr>, [request])
              | Rejected \<Rightarrow>
                  (s1\<lparr>submitting := False\<rparr>,
                   [request, ConsoleError ''Error submitting donation:''])))"

fun is_post :: "effect \<Rightarrow> bool" where
  "is_post (Post _ _) = True"
| "is_post _ = False"

section \<open>Routing (App.js, ProtectedRoute and App)\<close>

datatype page = LandingPage | LoginPage | RegisterPage | DonationPage | DashboardPage

datatype element = Show page | LoadingPlaceholder | NavigateTo string

definition ProtectedRoute :: "'u auth \<Rightarrow> element \<Rightarrow> element" where
  "ProtectedRoute a children =
     (if loading a then LoadingPlaceholder
      else if user a = None then NavigateTo ''/login''
      else children)"

text \<open>The route table; a path without a route renders nothing.\<close>

definition routes :: "'u auth \<Rightarrow> string \<Rightarrow> element option" where
  "routes a path =
     (if path = ''/'' then Some (Show LandingPage)
      else if path = ''/login'' then Some (Show LoginPage)
      else if path = ''/register'' then Some (Show RegisterPage)
      else if path = ''/donate'' then Some (Show DonationPage)
      else if path = ''/dashboard'' then Some (ProtectedRoute a (Show DashboardPage))
      else None)"


section \<open>Mind games (education.tsx, handlePlayGame)\<close>









section \<open>VIP tiers and the wallet (backend)\<close>

text \<open>
  Modelled from the spec: the VIP levels of the backend (server.py, GET /api/vip/levels),
  which is not among the sources. A level is a discrete named tier with the recharge total
  that unlocks it; the test record lists six of them, numbered from 0 (Basic, Bronze,
  Silver, Gold, Platinum, Diamond). The thresholds are configuration.
\<close>

record vip_level =
  level :: nat
  level_name :: string
  recharge_requirement :: int

text \<open>
  Modelled from the spec: the eligibility test of the backend (server.py), which is not
  among the sources: a tier is unlocked once the cumulative recharge total has reached
  its configured threshold.
\<close>

definition unlocked :: "int \<Rightarrow> vip_level \<Rightarrow> bool" where
  "unlocked recharged l \<longleftrightarrow> recharge_requirement l \<le> recharged"

text \<open>
  Modelled from the spec: the eligible-level calculation of the backend (server.py, GET
  /api/vip/status), which is not among the sources: it maps a recharge total to a tier by
  threshold comparison, giving the highest configured level that is unlocked, and level 0
  when none is.
\<close>

fun eligible_level :: "vip_level list \<Rightarrow> int \<Rightarrow> nat" where
  "eligible_level [] recharged = 0"
| "eligible_level (l # ls) recharged =
     (if unlocked recharged l then max (level l) (eligible_level ls recharged)
      else eligible_level ls recharged)"

text \<open>
  Modelled from the spec: the wallet of the backend (server.py), which is not among the
  sources: a per-user record of the virtual currency balances coins, bonus and stars.
\<close>

record wallet =
  coins_balance :: int
  bonus_balance :: int
  stars_balance :: int

text \<open>
  Modelled from the spec: the transaction records of the backend (server.py), which is not
  among the sources; the test record names their amount, type and status.
\<close>

record transaction =
  transaction_type :: string
  transaction_amount :: int
  transaction_status :: string

text \<open>
  Modelled from the spec: what the backend (server.py, not among the sources) keeps for a
  user: the wallet, the transaction history, the VIP cumulative recharge total and the
  notifications.
\<close>

record account =
  wallet :: wallet
  transactions :: "transaction list"
  total_recharged :: int
  notifications :: "string list"

text \<open>
  Modelled from the spec: the deposit operation of the backend (server.py, POST
  /api/wallet/deposit), which is not among the sources. By the test record it updates the
  wallet balance (1500 to 2000 for a deposit of 500), creates a transaction record, updates
  the VIP recharge total and sends a notification.
\<close>

definition deposit :: "int \<Rightarrow> account \<Rightarrow> account" where
  "deposit d acc =
     acc\<lparr>wallet := (wallet acc)\<lparr>coins_balance := coins_balance (wallet acc) + d\<rparr>,
         transactions := transactions acc @
           [\<lparr>transaction_type = ''deposit'', transaction_amount = d,
             transaction_status = ''completed''\<rparr>],
         total_recharged := total_recharged acc + d,
         notifications := notifications acc @ [''Deposit successful'']\<rparr>"

section \<open>Shares of an amount\<close>

text \<open>\<open>p\<close> percent of an amount, as a matter of arithmetic.\<close>

definition percent_of :: "rat \<Rightarrow> rat \<Rightarrow> rat" where
  "percent_of p a = p * a / 100"

section \<open>Example states\<close>

text \<open>Two signed-in users, a visitor, and two fillings of the donation form.\<close>

definition amina :: "string auth" where
  "amina = \<lparr>storage = [''token'' \<mapsto> ''tok'', ''user'' \<mapsto> ''amina''], user = Some ''amina'', loading = False\<rparr>"

definition visitor :: "string auth" where
  "visitor = \<lparr>storage = Map.empty, user = None, loading = False\<rparr>"

definition form_500 :: donate_state where
  "form_500 = \<lparr>amount = ''500'', donorName = ''Amina'', donorPhone = ''+91 7000000000'',
     message = ''get well'', submitted = False, submitting = False\<rparr>"

definition bilal :: "string auth" where
  "bilal = \<lparr>storage = [''token'' \<mapsto> ''other'', ''user'' \<mapsto> ''bilal''], user = Some ''bilal'', loading = True\<rparr>"

definition form_500_busy :: donate_state where
  "form_500_busy = \<lparr>amount = ''500'', donorName = ''Bilal'', donorPhone = [],
     message = [], submitted = False, submitting = True\<rparr>"



definition example_levels :: "vip_level list" where
  "example_levels =
     [\<lparr>level = 0, level_name = ''Basic'', recharge_requirement = 0\<rparr>,
      \<lparr>level = 1, level_name = ''Bronze'', recharge_requirement = 500\<rparr>,
      \<lparr>level = 2, level_name = ''Silver'', recharge_requirement = 2000\<rparr>,
      \<lparr>level = 3, level_name = ''Gold'', recharge_requirement = 5000\<rparr>,
      \<lparr>level = 4, level_name = ''Platinum'', recharge_requirement = 10000\<rparr>,
      \<lparr>level = 5, level_name = ''Diamond'', recharge_requirement = 50000\<rparr>]"

section \<open>Logout after login\<close>

lemma logout_signed_out: "signed_out (logout a)"
  by (simp add: signed_out_def logout_def)

lemma logout_id: "signed_out a \<Longrightarrow> logout a = a"
proof -
  assume so: "signed_out a"
  have "(storage a)(''token'' := None, ''user'' := None) = storage a"
    using so by (auto simp: signed_out_def fun_eq_iff)
  moreover have "user a = None"
    using so by (simp add: signed_out_def)
  ultimately show ?thesis
    by (simp add: logout_def)
qed

lemma logout_login: "logout (login stringify token userData a) = logout a"
  by (simp add: logout_def login_def fun_upd_twist)

text \<open>
  Claim C8. For every token \<open>t\<close> and user record \<open>u\<close>, logout after \<open>login(t, u)\<close> leaves
  neither a 'token' nor a 'user' entry in localStorage and sets the user to null; started
  in a signed-out state, the pair gives that state back, whatever \<open>t\<close> and \<open>u\<close> are.
\<close>

theorem logout_after_login:
  "storage (logout (login stringify t u a)) ''token'' = None \<and>
   storage (logout (login stringify t u a)) ''user'' = None \<and>
   user (logout (login stringify t u a)) = None \<and>
   (signed_out a \<longrightarrow> logout (login stringify t u a) = a)"
proof -
  have "signed_out (logout (login stringify t u a))"
    by (rule logout_signed_out)
  moreover have "signed_out a \<longrightarrow> logout (login stringify t u a) = a"
    by (simp add: logout_login logout_id)
  ultimately show ?thesis
    by (simp add: signed_out_def)
qed

theorem logout_after_login_witness:
  "signed_out \<lparr>storage = Map.empty, user = (None :: string option), loading = False\<rparr> \<and>
   logout (login (\<lambda>n. n) ''tok'' ''amina''
     \<lparr>storage = Map.empty, user = None, loading = False\<rparr>)
   = \<lparr>storage = Map.empty, user = None, loading = False\<rparr>"
proof -
  have so: "signed_out \<lparr>storage = Map.empty, user = (None :: string option), loading = False\<rparr>"
    by (simp add: signed_out_def)
  from so logout_after_login [of "\<lambda>n. n" "''tok''" "''amina''"
      "\<lparr>storage = Map.empty, user = None, loading = False\<rparr>"]
  show ?thesis by simp
qed

section \<open>Rounding to doubles\<close>

text \<open>The exponent brackets the magnitude between two powers of 2.\<close>

lemma bitlen_pos_bounds:
  assumes "0 < p"
  shows "(2::rat) powi (bitlen p - 1) \<le> of_int p" and "of_int p < (2::rat) powi bitlen p"
proof -
  from bitlen_bounds [OF assms]
  have b: "2 ^ nat (bitlen p - 1) \<le> p" "p < 2 ^ nat (bitlen p)"
    by simp_all
  have n: "1 \<le> bitlen p"
    using assms bitlen_eq_zero_iff [of p] bitlen_nonneg [of p] by linarith
  have "(2::rat) powi (bitlen p - 1) = 2 ^ nat (bitlen p - 1)"
    using n by (simp add: power_int_def)
  also have "\<dots> = of_int (2 ^ nat (bitlen p - 1))"
    by simp
  also have "\<dots> \<le> of_int p"
    using b(1) by (simp only: of_int_le_iff)
  finally show "(2::rat) powi (bitlen p - 1) \<le> of_int p" .
  have "(of_int p :: rat) < of_int (2 ^ nat (bitlen p))"
    using b(2) by (simp only: of_int_less_iff)
  also have "\<dots> = 2 ^ nat (bitlen p)"
    by simp
  also have "\<dots> = (2::rat) powi bitlen p"
    using n by (simp add: power_int_def)
  finally show "of_int p < (2::rat) powi bitlen p" .
qed

lemma exponent_bounds:
  assumes "x \<noteq> 0"
  shows "2 powi exponent x \<le> \<bar>x\<bar>" and "\<bar>x\<bar> < 2 powi (exponent x + 1)"
proof -
  obtain p q where pq: "quotient_of \<bar>x\<bar> = (p, q)"
    by (cases "quotient_of \<bar>x\<bar>")
  have q: "0 < q"
    using pq by (rule quotient_of_denom_pos)
  have x: "\<bar>x\<bar> = of_int p / of_int q"
    using pq by (rule quotient_of_div)
  have "rat_of_int p = \<bar>x\<bar> * of_int q"
    using x q by simp
  moreover have "0 < \<bar>x\<bar> * rat_of_int q"
    using assms q by simp
  ultimately have "(0::rat) < of_int p"
    by simp
  then have p: "0 < p"
    by simp
  define e where "e = bitlen p - bitlen q"
  note P = bitlen_pos_bounds [OF p] and Q = bitlen_pos_bounds [OF q]
  have qpos: "(0::rat) < of_int q"
    using q by simp
  have "2 powi (e - 1) * rat_of_int q < 2 powi (e - 1) * 2 powi bitlen q"
    using Q(2) by (simp add: mult_strict_left_mono)
  also have "\<dots> = 2 powi (bitlen p - 1)"
    by (simp add: e_def flip: power_int_add)
  also have "\<dots> \<le> of_int p"
    by (rule P(1))
  finally have lo: "2 powi (e - 1) < \<bar>x\<bar>"
    using qpos by (simp add: x pos_less_divide_eq)
  have "rat_of_int p < 2 powi bitlen p"
    by (rule P(2))
  also have "\<dots> = 2 powi (e + 1) * 2 powi (bitlen q - 1)"
    by (simp add: e_def flip: power_int_add)
  also have "\<dots> \<le> 2 powi (e + 1) * of_int q"
    using Q(1) by (simp add: mult_left_mono)
  finally have hi: "\<bar>x\<bar> < 2 powi (e + 1)"
    using qpos by (simp add: x pos_divide_less_eq)
  have ex: "exponent x = (if 2 powi e \<le> \<bar>x\<bar> then e else e - 1)"
    by (simp add: exponent_def pq e_def Let_def)
  show "2 powi exponent x \<le> \<bar>x\<bar>"
    using lo by (simp add: ex)
  show "\<bar>x\<bar> < 2 powi (exponent x + 1)"
    using hi by (simp add: ex)
qed

lemma powi_less_imp_less:
  assumes "(2::rat) powi a < 2 powi b"
  shows "a < b"
proof (rule ccontr)
  assume "\<not> a < b"
  then have "b \<le> a" by simp
  then have "(2::rat) powi b \<le> 2 powi a"
    by (rule power_int_increasing) simp
  with assms show False by simp
qed

lemma powi_le_abs_nonzero:
  assumes "(2::rat) powi e \<le> \<bar>x\<bar>"
  shows "x \<noteq> 0"
proof
  assume "x = 0"
  with assms have "(2::rat) powi e \<le> 0"
    by simp
  moreover have "(0::rat) < 2 powi e"
    by simp
  ultimately show False
    by linarith
qed

lemma exponent_unique:
  assumes "2 powi e \<le> \<bar>x\<bar>" and "\<bar>x\<bar> < 2 powi (e + 1)"
  shows "exponent x = e"
proof -
  have "x \<noteq> 0"
    using assms(1) by (rule powi_le_abs_nonzero)
  note b = exponent_bounds [OF this]
  have "(2::rat) powi e < 2 powi (exponent x + 1)"
    using assms(1) b(2) by linarith
  then have "e < exponent x + 1"
    by (rule powi_less_imp_less)
  moreover have "(2::rat) powi exponent x < 2 powi (e + 1)"
    using assms(2) b(1) by linarith
  then have "exponent x < e + 1"
    by (rule powi_less_imp_less)
  ultimately show ?thesis by linarith
qed

lemma round_half_even_close: "\<bar>of_int (round_half_even y) - y\<bar> \<le> 1 / 2"
proof -
  have "of_int \<lfloor>y\<rfloor> \<le> y" "y < of_int \<lfloor>y\<rfloor> + 1"
    by linarith+
  then show ?thesis
    by (auto simp: round_half_even_def Let_def)
qed

lemma round_half_even_nonneg: "0 \<le> y \<Longrightarrow> 0 \<le> round_half_even y"
  by (auto simp: round_half_even_def Let_def)

lemma round_half_even_unique:
  assumes "\<bar>y - of_int m\<bar> < 1 / 2"
  shows "round_half_even y = m"
proof -
  have c: "\<bar>of_int (round_half_even y) - y\<bar> \<le> 1 / 2"
    by (rule round_half_even_close)
  have "\<bar>rat_of_int (round_half_even y) - of_int m\<bar> < 1"
    using assms c by linarith
  then have "\<bar>rat_of_int (round_half_even y - m)\<bar> < 1"
    by simp
  then have "\<bar>round_half_even y - m\<bar> < 1"
    by (simp only: of_int_abs [symmetric] of_int_less_1_iff)
  then show ?thesis by linarith
qed

lemma round_half_even_of_int [simp]: "round_half_even (of_int m) = m"
  by (rule round_half_even_unique) simp

text \<open>Evaluating the rounding at a given number.\<close>

lemma to_double_eqI:
  assumes "2 powi e \<le> \<bar>x\<bar>" and "\<bar>x\<bar> < 2 powi (e + 1)"
    and "q = max e (- 1022) - 52"
    and "\<bar>\<bar>x\<bar> / 2 powi q - of_int m\<bar> < 1 / 2"
    and "of_int m * 2 powi q < (2::rat) powi 1024"
  shows "to_double x = Finite (sgn x * (of_int m * 2 powi q))"
proof -
  have "x \<noteq> 0"
    using assms(1) by (rule powi_le_abs_nonzero)
  moreover have "exponent x = e"
    using assms(1,2) by (rule exponent_unique)
  moreover have "round_half_even (\<bar>x\<bar> / 2 powi q) = m"
    using assms(4) by (rule round_half_even_unique)
  ultimately show ?thesis
    using assms(3,5) by (simp add: to_double_def Let_def)
qed

text \<open>The error of the rounding.\<close>

lemma to_double_cases:
  assumes "x \<noteq> 0"
  obtains (overflow) "2 powi 1023 \<le> \<bar>x\<bar>"
  | (finite) y where "to_double x = Finite y" and "\<bar>y - x\<bar> \<le> \<bar>x\<bar> * 2 powi (- 53) + 2 powi (- 1075)"
proof (cases "2 powi 1023 \<le> \<bar>x\<bar>")
  case True
  then show ?thesis by (rule overflow)
next
  case False
  define q where "q = max (exponent x) (- 1022) - 52"
  define m where "m = round_half_even (\<bar>x\<bar> / 2 powi q)"
  define r where "r = rat_of_int m * 2 powi q"
  have qp: "(0::rat) < 2 powi q"
    by simp
  note b = exponent_bounds [OF assms]
  have "exponent x < 1023"
    using False b(1) powi_less_imp_less [of "exponent x" 1023] by linarith
  then have q_le: "q \<le> 970"
    by (simp add: q_def)
  have "\<bar>rat_of_int m - \<bar>x\<bar> / 2 powi q\<bar> \<le> 1 / 2"
    unfolding m_def by (rule round_half_even_close)
  then have "\<bar>rat_of_int m - \<bar>x\<bar> / 2 powi q\<bar> * 2 powi q \<le> 1 / 2 * 2 powi q"
    using qp by (simp add: mult_right_mono)
  moreover have "\<bar>rat_of_int m - \<bar>x\<bar> / 2 powi q\<bar> * 2 powi q = \<bar>r - \<bar>x\<bar>\<bar>"
  proof -
    have "\<bar>rat_of_int m - \<bar>x\<bar> / 2 powi q\<bar> * 2 powi q = \<bar>(rat_of_int m - \<bar>x\<bar> / 2 powi q) * 2 powi q\<bar>"
      using qp by (simp add: abs_mult)
    also have "(rat_of_int m - \<bar>x\<bar> / 2 powi q) * 2 powi q = r - \<bar>x\<bar>"
      using qp by (simp add: r_def left_diff_distrib)
    finally show ?thesis .
  qed
  ultimately have d: "\<bar>r - \<bar>x\<bar>\<bar> \<le> 2 powi q / 2"
    by simp
  have half: "(2::rat) powi q / 2 = 2 powi (q - 1)"
    by (simp add: power_int_diff)
  have ulp: "(2::rat) powi (q - 1) \<le> \<bar>x\<bar> * 2 powi (- 53) + 2 powi (- 1075)"
  proof (cases "- 1022 \<le> exponent x")
    case True
    then have "q - 1 = exponent x + (- 53)"
      by (simp add: q_def)
    then have "(2::rat) powi (q - 1) = 2 powi (exponent x + (- 53))"
      by (simp only:)
    also have "\<dots> = 2 powi exponent x * 2 powi (- 53)"
      by (rule power_int_add) simp
    also have "\<dots> \<le> \<bar>x\<bar> * 2 powi (- 53)"
      using b(1) by (intro mult_right_mono) simp_all
    also have "\<dots> \<le> \<bar>x\<bar> * 2 powi (- 53) + 2 powi (- 1075)"
      using zero_less_power_int [of "2::rat" "- 1075"] by linarith
    finally show ?thesis .
  next
    case False
    then have "q - 1 = - 1075"
      by (simp add: q_def)
    then have "(2::rat) powi (q - 1) = 2 powi (- 1075)"
      by (simp only:)
    moreover have "0 \<le> \<bar>x\<bar> * (2::rat) powi (- 53)"
      by (intro mult_nonneg_nonneg) simp_all
    ultimately show ?thesis by linarith
  qed
  have rlt: "r < 2 powi 1024"
  proof -
    have "r \<le> \<bar>x\<bar> + 2 powi (q - 1)"
      using d half by linarith
    also have "(2::rat) powi (q - 1) \<le> 2 powi 1023"
      using q_le by (intro power_int_increasing) simp_all
    finally have "r < 2 powi 1023 + 2 powi 1023"
      using False by linarith
    moreover have "(2::rat) powi (1023 + 1) = 2 powi 1023 * 2 powi 1"
      by (rule power_int_add) simp
    then have "(2::rat) powi 1024 = 2 powi 1023 * 2"
      by (simp only: power_int_1_right) simp
    ultimately show ?thesis by linarith
  qed
  have "to_double x = Finite (sgn x * r)"
    using assms rlt by (simp add: to_double_def Let_def q_def m_def r_def)
  moreover have "\<bar>sgn x * r - x\<bar> \<le> \<bar>x\<bar> * 2 powi (- 53) + 2 powi (- 1075)"
  proof -
    have "sgn x * r - x = sgn x * (r - \<bar>x\<bar>)"
      by (simp add: right_diff_distrib sgn_mult_abs)
    then have "\<bar>sgn x * r - x\<bar> = \<bar>sgn x\<bar> * \<bar>r - \<bar>x\<bar>\<bar>"
      by (simp add: abs_mult)
    also have "\<dots> = \<bar>r - \<bar>x\<bar>\<bar>"
      using assms by (simp add: abs_sgn_eq)
    finally show ?thesis
      using d half ulp by linarith
  qed
  ultimately show ?thesis by (rule finite)
qed

section \<open>Digits shown by toFixed\<close>

text \<open>A number with at most \<open>f\<close> decimals is shown as it is.\<close>

lemma toFixed_exact:
  assumes "x * 10 ^ f = of_int k"
  shows "toFixed f (Finite x) = Finite x"
proof (cases "10 ^ 21 \<le> \<bar>x\<bar>")
  case True
  then show ?thesis by simp
next
  case False
  have "\<bar>x\<bar> * 10 ^ f = \<bar>x * 10 ^ f\<bar>"
    by (simp add: abs_mult)
  also have "\<dots> = of_int \<bar>k\<bar>"
    using assms by simp
  finally have "\<bar>x\<bar> * 10 ^ f = of_int \<bar>k\<bar>" .
  moreover have "\<lfloor>rat_of_int \<bar>k\<bar> + 1 / 2\<rfloor> = \<bar>k\<bar>"
    by (intro floor_unique) auto
  ultimately have fl: "\<lfloor>\<bar>x\<bar> * 10 ^ f + 1 / 2\<rfloor> = \<bar>k\<bar>"
    by simp
  have "sgn x * of_int \<bar>k\<bar> = of_int k"
  proof -
    have "sgn x * \<bar>x * 10 ^ f\<bar> = x * 10 ^ f"
      by (simp add: abs_mult mult.assoc[symmetric] sgn_mult_abs)
    then show ?thesis using assms by simp
  qed
  then have "sgn x * of_int \<bar>k\<bar> / 10 ^ f = x"
    using assms by (simp add: field_simps)
  with False fl show ?thesis by simp
qed

text \<open>Any other number is shown within half a unit of the last decimal.\<close>

lemma toFixed_close:
  "\<exists>y. toFixed f (Finite x) = Finite y \<and> \<bar>y - x\<bar> \<le> 1 / (2 * 10 ^ f)"
proof (cases "10 ^ 21 \<le> \<bar>x\<bar>")
  case True
  then show ?thesis by simp
next
  case False
  define n where "n = \<lfloor>\<bar>x\<bar> * 10 ^ f + 1 / 2\<rfloor>"
  have lo: "of_int n \<le> \<bar>x\<bar> * 10 ^ f + 1 / 2" and hi: "\<bar>x\<bar> * 10 ^ f + 1 / 2 < of_int n + 1"
    unfolding n_def by linarith+
  have p: "(0::rat) < 10 ^ f" by simp
  have "\<bar>of_int n - \<bar>x\<bar> * 10 ^ f\<bar> \<le> 1 / 2"
    using lo hi by linarith
  then have "\<bar>of_int n - \<bar>x\<bar> * 10 ^ f\<bar> / 10 ^ f \<le> (1 / 2) / 10 ^ f"
    by (rule divide_right_mono) simp
  moreover have "\<bar>of_int n - \<bar>x\<bar> * 10 ^ f\<bar> / 10 ^ f = \<bar>of_int n / 10 ^ f - \<bar>x\<bar>\<bar>"
  proof -
    have "\<bar>of_int n - \<bar>x\<bar> * 10 ^ f\<bar> / 10 ^ f = \<bar>(of_int n - \<bar>x\<bar> * 10 ^ f) / 10 ^ f\<bar>"
      by simp
    also have "(of_int n - \<bar>x\<bar> * 10 ^ f) / 10 ^ f = of_int n / 10 ^ f - \<bar>x\<bar>"
      by (simp add: diff_divide_distrib)
    finally show ?thesis .
  qed
  ultimately have d: "\<bar>of_int n / 10 ^ f - \<bar>x\<bar>\<bar> \<le> 1 / (2 * 10 ^ f)"
    by simp
  have "sgn x * \<bar>x\<bar> = x"
    by (rule sgn_mult_abs)
  then have "sgn x * of_int n / 10 ^ f - x = sgn x * (of_int n / 10 ^ f - \<bar>x\<bar>)"
    by (simp add: right_diff_distrib)
  then have "\<bar>sgn x * of_int n / 10 ^ f - x\<bar> = \<bar>sgn x * (of_int n / 10 ^ f - \<bar>x\<bar>)\<bar>"
    by simp
  also have "\<dots> \<le> \<bar>of_int n / 10 ^ f - \<bar>x\<bar>\<bar>"
    by (cases "x = 0") (simp_all add: abs_mult abs_sgn_eq)
  finally have "\<bar>sgn x * of_int n / 10 ^ f - x\<bar> \<le> 1 / (2 * 10 ^ f)"
    using d by linarith
  with False show ?thesis by (simp add: n_def)
qed



text \<open>On the finite branch the digits shown are a whole number of units of the last decimal.\<close>

lemma toFixed_grid:
  assumes "\<bar>x\<bar> < 10 ^ 21"
  shows "\<exists>n::int. toFixed f (Finite x) = Finite (of_int n / 10 ^ f)"
proof -
  have "sgn x = of_int (sgn \<lfloor>x\<rfloor>) \<or> sgn x = 1 \<or> sgn x = - 1 \<or> sgn x = 0"
    by (auto simp: sgn_if)
  then obtain k :: int where k: "sgn x = of_int k"
    by (metis of_int_0 of_int_1 of_int_minus)
  have "sgn x * of_int \<lfloor>\<bar>x\<bar> * 10 ^ f + 1 / 2\<rfloor> = of_int (k * \<lfloor>\<bar>x\<bar> * 10 ^ f + 1 / 2\<rfloor>)"
    by (simp add: k)
  then show ?thesis
    using assms by (intro exI [of _ "k * \<lfloor>\<bar>x\<bar> * 10 ^ f + 1 / 2\<rfloor>"]) (simp del: of_int_mult)
qed

text \<open>
  Concrete margins: the unit roundoff \<open>2\<^sup>-\<^sup>5\<^sup>3\<close> is below \<open>1 / (9 * 10\<^sup>1\<^sup>5)\<close>, and half the
  smallest subnormal is far below \<open>10\<^sup>-\<^sup>2\<^sup>0\<close>.
\<close>

lemma unit_roundoff: "(2::rat) powi (- 53) \<le> 1 / (9 * 10 ^ 15)"
  by simp

lemma half_subnormal: "(2::rat) powi (- 1075) \<le> 1 / 10 ^ 20"
proof -
  have "(2::rat) powi (- 1075) \<le> 2 powi (- 67)"
    by (rule power_int_increasing) simp_all
  also have "\<dots> \<le> 1 / 10 ^ 20"
    by simp
  finally show ?thesis .
qed

lemma to_double_bound:
  assumes "\<bar>x\<bar> \<le> B" and "B < 2 powi 1023" and "B / (9 * 10 ^ 15) + 1 / 10 ^ 20 \<le> E"
  shows "\<exists>y. to_double x = Finite y \<and> \<bar>y - x\<bar> \<le> E"
proof (cases "x = 0")
  case True
  have "0 \<le> B"
    using assms(1) by linarith
  then have "(0::rat) \<le> B / (9 * 10 ^ 15) + 1 / 10 ^ 20"
    by simp
  with assms(3) have "0 \<le> E"
    by linarith
  with True show ?thesis
    by (simp add: to_double_def)
next
  case False
  then show ?thesis
  proof (cases x rule: to_double_cases)
    case overflow
    with assms show ?thesis by linarith
  next
    case (finite y)
    have "\<bar>x\<bar> * 2 powi (- 53) \<le> B * (1 / (9 * 10 ^ 15))"
      using assms(1) unit_roundoff by (intro mult_mono) simp_all
    with finite(2) half_subnormal have "\<bar>y - x\<bar> \<le> B / (9 * 10 ^ 15) + 1 / 10 ^ 20"
      by simp
    with assms(3) have "\<bar>y - x\<bar> \<le> E"
      by linarith
    with finite(1) show ?thesis by blast
  qed
qed

lemma below_overflow:
  assumes "B \<le> 10 ^ 22"
  shows "(B::rat) < 2 powi 1023"
proof -
  have "(10::rat) ^ 22 < 2 powi 74"
    by simp
  also have "(2::rat) powi 74 \<le> 2 powi 1023"
    by (rule power_int_increasing) simp_all
  finally show ?thesis
    using assms by linarith
qed

text \<open>
  A share of an amount of at most \<open>10\<^sup>1\<^sup>3\<close>, at a rate between 0 and 1: both are rounded to
  doubles, multiplied with rounding and shown with two decimals. Three roundings of at
  most a part in \<open>9 * 10\<^sup>1\<^sup>5\<close> each and the half unit of the display stay below one
  hundredth in all.
\<close>

lemma shown_share:
  assumes d: "\<bar>d\<bar> \<le> 10 ^ 13" and r0: "0 \<le> r" and r1: "r \<le> 1"
  shows "\<exists>s n. toFixed 2 (mul (to_double d) (to_double r)) = Finite s \<and>
           \<bar>s - r * d\<bar> < 1 / 100 \<and> s = of_int n / 100"
proof -
  have d': "\<bar>d\<bar> \<le> 10000000000000"
    using d by simp
  have r': "\<bar>r\<bar> \<le> 1"
    using r0 r1 by simp
  obtain v where v: "to_double d = Finite v" and dv: "\<bar>v - d\<bar> \<le> 1 / 800"
    using to_double_bound [of d "10 ^ 13" "1 / 800", OF d below_overflow] by auto
  obtain c where c: "to_double r = Finite c" and dc: "\<bar>c - r\<bar> \<le> 1 / 8000000000000000"
    using to_double_bound [of r 1 "1 / 8000000000000000", OF r' below_overflow] by auto
  have av: "\<bar>v\<bar> \<le> 10000000000001"
    using d' dv by linarith
  have ac: "\<bar>c\<bar> \<le> 11 / 10"
    using r' dc by linarith
  have "\<bar>v * c\<bar> = \<bar>v\<bar> * \<bar>c\<bar>"
    by (rule abs_mult)
  also have "\<dots> \<le> 10000000000001 * (11 / 10)"
    using av ac by (intro mult_mono) simp_all
  finally have avc: "\<bar>v * c\<bar> \<le> 12000000000000"
    by simp
  obtain y where y: "to_double (v * c) = Finite y" and dy: "\<bar>y - v * c\<bar> \<le> 1 / 700"
    using to_double_bound [of "v * c" 12000000000000 "1 / 700", OF avc below_overflow] by auto
  have "\<bar>v * (c - r)\<bar> = \<bar>v\<bar> * \<bar>c - r\<bar>"
    by (rule abs_mult)
  also have "\<dots> \<le> 10000000000001 * (1 / 8000000000000000)"
    using av dc by (intro mult_mono) simp_all
  finally have t1: "\<bar>v * (c - r)\<bar> \<le> 1 / 700"
    by simp
  have "\<bar>r * (v - d)\<bar> = \<bar>r\<bar> * \<bar>v - d\<bar>"
    by (rule abs_mult)
  also have "\<dots> \<le> 1 * (1 / 800)"
    using r' dv by (intro mult_mono) simp_all
  finally have t2: "\<bar>r * (v - d)\<bar> \<le> 1 / 800"
    by simp
  have split: "y - r * d = (y - v * c) + v * (c - r) + r * (v - d)"
    by (simp add: algebra_simps)
  have "\<bar>y - r * d\<bar> \<le> \<bar>y - v * c\<bar> + \<bar>v * (c - r)\<bar> + \<bar>r * (v - d)\<bar>"
    unfolding split by (intro order_trans [OF abs_triangle_ineq] add_mono order_refl)
  with dy t1 t2 have e: "\<bar>y - r * d\<bar> < 1 / 200"
    by linarith
  have "\<bar>r * d\<bar> = \<bar>r\<bar> * \<bar>d\<bar>"
    by (rule abs_mult)
  also have "\<dots> \<le> 1 * 10000000000000"
    using r' d' by (intro mult_mono) simp_all
  finally have "\<bar>r * d\<bar> \<le> 10000000000000"
    by simp
  with e have "\<bar>y\<bar> < 1000000000000000000000"
    by linarith
  then have "\<bar>y\<bar> < 10 ^ 21"
    by simp
  then obtain n :: int where n: "toFixed 2 (Finite y) = Finite (of_int n / 10 ^ 2)"
    using toFixed_grid by blast
  obtain s where s: "toFixed 2 (Finite y) = Finite s" and ds: "\<bar>s - y\<bar> \<le> 1 / (2 * 10 ^ 2)"
    using toFixed_close by blast
  have "toFixed 2 (mul (to_double d) (to_double r)) = Finite s"
    by (simp only: v c mul.simps y s)
  moreover have "\<bar>s - r * d\<bar> < 1 / 100"
  proof -
    have "\<bar>s - y\<bar> \<le> 1 / 200"
      using ds by simp
    with e show ?thesis
      by linarith
  qed
  moreover have "s = of_int n / 100"
    using n s by simp
  ultimately show ?thesis by blast
qed

lemma shown_share_whole:
  assumes "\<bar>of_int m\<bar> \<le> (10::rat) ^ 13" and "0 \<le> r" and "r \<le> 1" and "r * 100 = of_int k"
  shows "toFixed 2 (mul (to_double (of_int m)) (to_double r)) = Finite (r * of_int m)"
proof -
  obtain s n where s: "toFixed 2 (mul (to_double (of_int m)) (to_double r)) = Finite s"
      and e: "\<bar>s - r * of_int m\<bar> < 1 / 100" and n: "s = of_int n / 100"
    using shown_share [OF assms(1-3)] by blast
  have "r * of_int m = of_int (k * m) / 100"
    using assms(4) by (simp add: field_simps)
  with e n have "\<bar>rat_of_int n / 100 - of_int (k * m) / 100\<bar> < 1 / 100"
    by simp
  then have "\<bar>rat_of_int (n - k * m)\<bar> < 1"
    by (simp add: field_simps flip: diff_divide_distrib)
  then have "\<bar>n - k * m\<bar> < 1"
    by (simp only: of_int_abs [symmetric] of_int_less_1_iff)
  then have "n = k * m"
    by linarith
  then have "s = rat_of_int (k * m) / 100"
    using n by (simp only:)
  also have "\<dots> = r * of_int m"
    using \<open>r * of_int m = of_int (k * m) / 100\<close> by (rule sym)
  finally show ?thesis
    using s by (simp only:)
qed

section \<open>The donation split shown on the donate page\<close>

lemmas parse_simps = str_decimal_literal_def is_white_space1_def is_white_space2_def
  is_white_space3_def unsigned_literal_def is_digit_def decimal_digits_def digit_value_def
  exponent_part_def scale10_def or_zero_def

lemma literal_100: "str_decimal_literal ''100'' = Decimal 100"
  by (simp add: parse_simps)

lemma literal_200: "str_decimal_literal ''200'' = Decimal 200"
  by (simp add: parse_simps)

lemma literal_250: "str_decimal_literal (or_zero ''250'') = Decimal (of_int 250)"
  by (simp add: parse_simps)

lemma literal_500: "str_decimal_literal (or_zero ''500'') = Decimal (of_int 500)"
  by (simp add: parse_simps)

lemma literal_2_25: "str_decimal_literal ''2.25'' = Decimal (9 / 4)"
  by (simp add: parse_simps)

lemma literal_big: "str_decimal_literal ''1000000000000003'' = Decimal 1000000000000003"
  by (simp add: parse_simps)

text \<open>The breakdown of a whole amount of at most \<open>10\<^sup>1\<^sup>3\<close>.\<close>

lemma breakdown_whole:
  assumes "str_decimal_literal (or_zero a) = Decimal (of_int m)" and "\<bar>of_int m\<bar> \<le> (10::rat) ^ 13"
  shows "donation_breakdown a =
     \<lparr>charity_contribution = Finite 5,
      vip_gift_income = Finite (percent_of 2 (of_int m)),
      family_equity = Finite (percent_of 60 (of_int m))\<rparr>"
proof -
  have p: "parseFloat (or_zero a) = to_double (of_int m)"
    by (simp add: parseFloat_def assms(1))
  have "toFixed 2 (mul (to_double (of_int m)) (to_double (2 / 100))) = Finite (2 / 100 * of_int m)"
    using assms(2) by (rule shown_share_whole [where k = 2]) simp_all
  moreover
  have "toFixed 2 (mul (to_double (of_int m)) (to_double (60 / 100))) = Finite (60 / 100 * of_int m)"
    using assms(2) by (rule shown_share_whole [where k = 60]) simp_all
  ultimately show ?thesis
    unfolding donation_breakdown_def p percent_of_def by simp
qed

text \<open>The doubles of the literals 0.02 and 0.60, and three roundings at given numbers.\<close>

lemma double_0_02: "to_double (1 / 50) = Finite (5764607523034235 / 288230376151711744)"
  using to_double_eqI [of "- 6" "1 / 50" "- 58" 5764607523034235] by simp

lemma double_0_60: "to_double (3 / 5) = Finite (5404319552844595 / 9007199254740992)"
  using to_double_eqI [of "- 1" "3 / 5" "- 53" 5404319552844595] by simp

lemma double_2_25: "to_double (9 / 4) = Finite (9 / 4)"
  using to_double_eqI [of 1 "9 / 4" "- 51" 5066549580791808] by simp

lemma double_big: "to_double 1000000000000003 = Finite 1000000000000003"
  using to_double_eqI [of 49 1000000000000003 "- 3" 8000000000000024] by simp

lemma product_2_25:
  "to_double (9 / 4 * (5764607523034235 / 288230376151711744)) =
     Finite (3242591731706757 / 72057594037927936)"
  using to_double_eqI [of "- 5" "9 / 4 * (5764607523034235 / 288230376151711744)" "- 57"
      6485183463413514]
  by simp

lemma product_big:
  "to_double (1000000000000003 * (5404319552844595 / 9007199254740992)) =
     Finite (2400000000000007 / 4)"
  using to_double_eqI [of 49 "1000000000000003 * (5404319552844595 / 9007199254740992)" "- 3"
      4800000000000014]
  by simp

lemma vip_2_25: "vip_gift_income (donation_breakdown ''2.25'') = Finite (4 / 100)"
proof -
  have "\<lfloor>\<bar>3242591731706757 / 72057594037927936 :: rat\<bar> * 10 ^ 2 + 1 / 2\<rfloor> = 4"
    by (rule floor_unique) simp_all
  then have "toFixed 2 (Finite (3242591731706757 / 72057594037927936)) = Finite (4 / 100)"
    by simp
  moreover have "parseFloat (or_zero ''2.25'') = Finite (9 / 4)"
    by (simp add: or_zero_def parseFloat_def literal_2_25 double_2_25)
  ultimately show ?thesis
    using product_2_25 by (simp add: donation_breakdown_def double_0_02)
qed

lemma family_big:
  "family_equity (donation_breakdown ''1000000000000003'') = Finite (60000000000000175 / 100)"
proof -
  have "toFixed 2 (Finite (2400000000000007 / 4)) = Finite (2400000000000007 / 4)"
    by (rule toFixed_exact [where k = 60000000000000175]) simp
  moreover have "parseFloat (or_zero ''1000000000000003'') = Finite 1000000000000003"
    by (simp add: or_zero_def parseFloat_def literal_big double_big)
  ultimately show ?thesis
    using product_big by (simp add: donation_breakdown_def double_0_60)
qed

text \<open>
  Claim C1, as amended. For every text \<open>a\<close> of the amount field the box shows the charity
  contribution as the fixed amount of 5 rupees, whatever \<open>a\<close> is. The VIP gift income and
  the family equity are the products, in double precision, of the parsed amount with 0.02
  and 0.60, shown with two decimals: for an amount of at most \<open>10\<^sup>1\<^sup>3\<close> in magnitude each
  figure is within one paisa of 2 percent and of 60 percent of the amount entered, and
  equal to them when the amount is a whole number of rupees.
\<close>

theorem donation_split:
  "charity_contribution (donation_breakdown a) = Finite 5 \<and>
   vip_gift_income (donation_breakdown a) =
     toFixed 2 (mul (parseFloat (or_zero a)) (to_double (2 / 100))) \<and>
   family_equity (donation_breakdown a) =
     toFixed 2 (mul (parseFloat (or_zero a)) (to_double (60 / 100))) \<and>
   (\<forall>d. str_decimal_literal (or_zero a) = Decimal d \<and> \<bar>d\<bar> \<le> 10 ^ 13 \<longrightarrow>
      (\<exists>s t. vip_gift_income (donation_breakdown a) = Finite s \<and>
             \<bar>s - percent_of 2 d\<bar> < 1 / 100 \<and>
             family_equity (donation_breakdown a) = Finite t \<and>
             \<bar>t - percent_of 60 d\<bar> < 1 / 100 \<and>
             (d \<in> \<int> \<longrightarrow> s = percent_of 2 d \<and> t = percent_of 60 d)))"
proof -
  have c: "charity_contribution (donation_breakdown a) = Finite 5"
    by (simp add: donation_breakdown_def)
  have v: "vip_gift_income (donation_breakdown a) =
      toFixed 2 (mul (parseFloat (or_zero a)) (to_double (2 / 100)))"
    by (simp add: donation_breakdown_def)
  have e: "family_equity (donation_breakdown a) =
      toFixed 2 (mul (parseFloat (or_zero a)) (to_double (60 / 100)))"
    by (simp add: donation_breakdown_def)
  have r: "\<exists>s t. vip_gift_income (donation_breakdown a) = Finite s \<and>
             \<bar>s - percent_of 2 d\<bar> < 1 / 100 \<and>
             family_equity (donation_breakdown a) = Finite t \<and>
             \<bar>t - percent_of 60 d\<bar> < 1 / 100 \<and>
             (d \<in> \<int> \<longrightarrow> s = percent_of 2 d \<and> t = percent_of 60 d)"
    if lit: "str_decimal_literal (or_zero a) = Decimal d" and small: "\<bar>d\<bar> \<le> 10 ^ 13" for d
  proof -
    have p: "parseFloat (or_zero a) = to_double d"
      by (simp add: parseFloat_def lit)
    obtain s n where s: "toFixed 2 (mul (to_double d) (to_double (2 / 100))) = Finite s"
        and ds: "\<bar>s - 2 / 100 * d\<bar> < 1 / 100"
      using shown_share [OF small, of "2 / 100"] by auto
    obtain t k where t: "toFixed 2 (mul (to_double d) (to_double (60 / 100))) = Finite t"
        and dt: "\<bar>t - 60 / 100 * d\<bar> < 1 / 100"
      using shown_share [OF small, of "60 / 100"] by auto
    have vs: "vip_gift_income (donation_breakdown a) = Finite s"
      unfolding v p by (rule s)
    have et: "family_equity (donation_breakdown a) = Finite t"
      unfolding e p by (rule t)
    have whole: "s = percent_of 2 d \<and> t = percent_of 60 d" if "d \<in> \<int>"
    proof -
      from that obtain m where m: "d = of_int m"
        by (auto elim: Ints_cases)
      have "donation_breakdown a =
         \<lparr>charity_contribution = Finite 5,
          vip_gift_income = Finite (percent_of 2 (of_int m)),
          family_equity = Finite (percent_of 60 (of_int m))\<rparr>"
        using lit small unfolding m by (rule breakdown_whole)
      with vs et m show ?thesis
        by simp
    qed
    have "\<bar>s - percent_of 2 d\<bar> < 1 / 100"
      using ds by (simp add: percent_of_def)
    moreover have "\<bar>t - percent_of 60 d\<bar> < 1 / 100"
      using dt by (simp add: percent_of_def)
    ultimately show ?thesis
      using vs et whole by blast
  qed
  from c v e r show ?thesis by blast
qed

theorem donation_split_witness:
  "str_decimal_literal (or_zero ''250'') = Decimal 250 \<and> \<bar>250 :: rat\<bar> \<le> 10 ^ 13 \<and>
   (250 :: rat) \<in> \<int> \<and>
   charity_contribution (donation_breakdown ''250'') = Finite 5 \<and>
   vip_gift_income (donation_breakdown ''250'') = Finite 5 \<and>
   family_equity (donation_breakdown ''250'') = Finite 150"
proof -
  have h: "str_decimal_literal (or_zero ''250'') = Decimal 250 \<and> \<bar>250 :: rat\<bar> \<le> 10 ^ 13"
    using literal_250 by simp
  have w: "(250 :: rat) \<in> \<int>"
    by simp
  from donation_split [of "''250''"] h
  obtain s t where "vip_gift_income (donation_breakdown ''250'') = Finite s"
      "family_equity (donation_breakdown ''250'') = Finite t"
      "(250 :: rat) \<in> \<int> \<longrightarrow> s = percent_of 2 250 \<and> t = percent_of 60 250"
    by blast
  with w have "vip_gift_income (donation_breakdown ''250'') = Finite 5"
      "family_equity (donation_breakdown ''250'') = Finite 150"
    by (simp_all add: percent_of_def)
  moreover have "charity_contribution (donation_breakdown ''250'') = Finite 5"
    using donation_split [of "''250''"] by blast
  ultimately show ?thesis
    using h w by blast
qed

text \<open>
  Claim C1 as stated fails in each of its three parts. The charity share is no fixed
  percentage of the amount: it is 5 percent of the amount 100 and not 5 percent of the
  amount 200. The VIP gift income shown for the amount 2.25 is 0.04, not 2 percent of
  it, which is 0.045. The family equity shown for the amount 1000000000000003 is
  600000000000001.75, not 60 percent of it, which is 600000000000001.8.
\<close>

theorem donation_split_counterexample:
  "str_decimal_literal ''100'' = Decimal 100 \<and>
   charity_contribution (donation_breakdown ''100'') = Finite (percent_of 5 100) \<and>
   str_decimal_literal ''200'' = Decimal 200 \<and>
   charity_contribution (donation_breakdown ''200'') \<noteq> Finite (percent_of 5 200) \<and>
   str_decimal_literal ''2.25'' = Decimal (9 / 4) \<and>
   vip_gift_income (donation_breakdown ''2.25'') = Finite (4 / 100) \<and>
   vip_gift_income (donation_breakdown ''2.25'') \<noteq> Finite (percent_of 2 (9 / 4)) \<and>
   str_decimal_literal ''1000000000000003'' = Decimal 1000000000000003 \<and>
   family_equity (donation_breakdown ''1000000000000003'') = Finite (60000000000000175 / 100) \<and>
   family_equity (donation_breakdown ''1000000000000003'') \<noteq>
     Finite (percent_of 60 1000000000000003)"
proof -
  have "charity_contribution (donation_breakdown ''100'') = Finite (percent_of 5 100)"
      "charity_contribution (donation_breakdown ''200'') \<noteq> Finite (percent_of 5 200)"
    by (simp_all add: donation_breakdown_def percent_of_def)
  moreover have "vip_gift_income (donation_breakdown ''2.25'') \<noteq> Finite (percent_of 2 (9 / 4))"
    unfolding vip_2_25 by (simp add: percent_of_def)
  moreover have "family_equity (donation_breakdown ''1000000000000003'') \<noteq>
      Finite (percent_of 60 1000000000000003)"
    unfolding family_big by (simp add: percent_of_def)
  ultimately show ?thesis
    using literal_100 literal_200 literal_2_25 literal_big vip_2_25 family_big by blast
qed

text \<open>So no percentage at all gives the charity contribution for every amount.\<close>

lemma charity_no_fixed_percentage:
  "\<not> (\<exists>p. \<forall>a d. str_decimal_literal a = Decimal d \<longrightarrow>
          charity_contribution (donation_breakdown a) = Finite (percent_of p d))"
proof
  assume "\<exists>p. \<forall>a d. str_decimal_literal a = Decimal d \<longrightarrow>
          charity_contribution (donation_breakdown a) = Finite (percent_of p d)"
  then obtain p where p: "\<And>a d. str_decimal_literal a = Decimal d \<Longrightarrow>
          charity_contribution (donation_breakdown a) = Finite (percent_of p d)"
    by blast
  from p [OF literal_100] p [OF literal_200] have "5 = p * 100 / 100" "5 = p * 200 / 100"
    by (simp_all add: donation_breakdown_def percent_of_def)
  then show False by simp
qed

section \<open>Submitting a donation\<close>





lemma handleSubmit_no_user:
  "user a = None \<Longrightarrow> handleSubmit a pending res s = (s, [Navigate ''/login''])"
  by (simp add: handleSubmit_def)

text \<open>The body of the request: the four fields of the form and nothing else.\<close>

lemma donation_body_fields:
  "map fst (donation_body s) = [''amount'', ''donor_name'', ''donor_phone'', ''message''] \<and>
   map snd (donation_body s) =
     [JNumber (parseFloat (amount s)), JString (donorName s), JString (donorPhone s),
      JString (message s)]"
  by (simp add: donation_body_def)






text \<open>
  Claim C5. The breakdown shown on the form is a function of the amount text alone: two
  renderings of the form with the same amount text show the same charity, VIP income and
  family equity values, whoever the signed-in user is and whatever the other fields, flags
  and the stored session are.
\<close>

theorem breakdown_of_amount_alone:
  assumes "user a1 \<noteq> None" and "user a2 \<noteq> None"
    and "\<not> submitted s1" and "\<not> submitted s2"
    and "amount s1 = amount s2"
  shows "shown_breakdown (DonatePage a1 s1) = Some (donation_breakdown (amount s1)) \<and>
         shown_breakdown (DonatePage a2 s2) = shown_breakdown (DonatePage a1 s1)"
  using assms by (auto simp: DonatePage_def)

lemma breakdown_500:
  "donation_breakdown ''500'' =
     \<lparr>charity_contribution = Finite 5, vip_gift_income = Finite 10, family_equity = Finite 300\<rparr>"
proof -
  have "\<bar>rat_of_int 500\<bar> \<le> 10 ^ 13"
    by simp
  with literal_500 have "donation_breakdown ''500'' =
     \<lparr>charity_contribution = Finite 5,
      vip_gift_income = Finite (percent_of 2 (of_int 500)),
      family_equity = Finite (percent_of 60 (of_int 500))\<rparr>"
    by (rule breakdown_whole)
  then show ?thesis
    by (simp add: percent_of_def)
qed

theorem breakdown_of_amount_alone_witness:
  "user amina \<noteq> None \<and> user bilal \<noteq> None \<and> user amina \<noteq> user bilal \<and>
   \<not> submitted form_500 \<and> \<not> submitted form_500_busy \<and> form_500 \<noteq> form_500_busy \<and>
   amount form_500 = amount form_500_busy \<and>
   shown_breakdown (DonatePage bilal form_500_busy) = shown_breakdown (DonatePage amina form_500) \<and>
   shown_breakdown (DonatePage amina form_500) =
     Some \<lparr>charity_contribution = Finite 5, vip_gift_income = Finite 10, family_equity = Finite 300\<rparr>"
proof -
  have h: "user amina \<noteq> None" "user bilal \<noteq> None" "\<not> submitted form_500"
      "\<not> submitted form_500_busy" "amount form_500 = amount form_500_busy"
    by (simp_all add: amina_def bilal_def form_500_def form_500_busy_def)
  have d: "user amina \<noteq> user bilal" "form_500 \<noteq> form_500_busy"
    by (simp_all add: amina_def bilal_def form_500_def form_500_busy_def)
  have "donation_breakdown (amount form_500) =
      \<lparr>charity_contribution = Finite 5, vip_gift_income = Finite 10, family_equity = Finite 300\<rparr>"
    by (simp add: form_500_def breakdown_500)
  with breakdown_of_amount_alone [OF h] h d show ?thesis by simp
qed

text \<open>
  Claim C7. With no authenticated user and loading completed, the route \<open>/dashboard\<close>
  renders the redirect to \<open>/login\<close>, never the dashboard, and a submission of the donate
  form sends no request: its only effect is the navigation to \<open>/login\<close>, and the form
  state stays as it was.
\<close>

theorem signed_out_is_kept_out:
  assumes "user a = None" and "\<not> loading a"
  shows "routes a ''/dashboard'' = Some (NavigateTo ''/login'') \<and>
         routes a ''/dashboard'' \<noteq> Some (Show DashboardPage) \<and>
         handleSubmit a pending res s = (s, [Navigate ''/login'']) \<and>
         filter is_post (snd (handleSubmit a pending res s)) = []"
  using assms by (simp add: routes_def ProtectedRoute_def handleSubmit_no_user)

theorem signed_out_is_kept_out_witness:
  "user visitor = None \<and> \<not> loading visitor \<and>
   routes visitor ''/dashboard'' = Some (NavigateTo ''/login'') \<and>
   handleSubmit visitor [] Fulfilled form_500 = (form_500, [Navigate ''/login''])"
proof -
  have h: "user visitor = None" "\<not> loading visitor"
    by (simp_all add: visitor_def)
  from signed_out_is_kept_out [OF h, of "[]" Fulfilled form_500] h show ?thesis by simp
qed

section \<open>The play-mind-game request\<close>






section \<open>VIP eligibility\<close>

lemma eligible_level_mono:
  "t \<le> t' \<Longrightarrow> eligible_level cfg t \<le> eligible_level cfg t'"
proof (induction cfg)
  case Nil
  then show ?case by simp
next
  case (Cons l ls)
  then have ih: "eligible_level ls t \<le> eligible_level ls t'"
    by simp
  show ?case
  proof (cases "unlocked t l")
    case True
    then have "unlocked t' l"
      using Cons.prems by (simp add: unlocked_def)
    with True ih show ?thesis by simp
  next
    case False
    with ih show ?thesis by (simp add: max.coboundedI2)
  qed
qed

lemma eligible_level_Max:
  "eligible_level cfg t = Max (insert 0 (level ` {l \<in> set cfg. unlocked t l}))"
proof (induction cfg)
  case Nil
  then show ?case by simp
next
  case (Cons l ls)
  let ?U = "level ` {x \<in> set ls. unlocked t x}"
  have fin: "finite (insert 0 ?U)" by simp
  show ?case
  proof (cases "unlocked t l")
    case True
    then have "{x \<in> set (l # ls). unlocked t x} = insert l {x \<in> set ls. unlocked t x}"
      by auto
    then have "insert 0 (level ` {x \<in> set (l # ls). unlocked t x}) = insert (level l) (insert 0 ?U)"
      by auto
    then have "Max (insert 0 (level ` {x \<in> set (l # ls). unlocked t x})) = max (level l) (Max (insert 0 ?U))"
      using fin by (simp only: Max_insert) simp
    with True Cons.IH show ?thesis by simp
  next
    case False
    then have "{x \<in> set (l # ls). unlocked t x} = {x \<in> set ls. unlocked t x}"
      by auto
    with False Cons.IH show ?thesis by simp
  qed
qed

text \<open>
  Claim C2. A tier is unlocked for a user exactly when the cumulative recharge total has
  reached the tier's configured threshold; the eligible level is the highest unlocked level
  of the configuration (level 0 when there is none), and it is monotone in the recharge
  total.
\<close>

theorem vip_eligibility:
  "(unlocked t l \<longleftrightarrow> recharge_requirement l \<le> t) \<and>
   eligible_level cfg t = Max (insert 0 (level ` {l \<in> set cfg. unlocked t l})) \<and>
   (t \<le> t' \<longrightarrow> eligible_level cfg t \<le> eligible_level cfg t')"
  using eligible_level_Max [of cfg t] eligible_level_mono [of t t' cfg]
  by (simp add: unlocked_def)

theorem vip_eligibility_witness:
  "(500::int) \<le> 2500 \<and>
   unlocked 500 (example_levels ! 1) \<and> \<not> unlocked 500 (example_levels ! 2) \<and>
   eligible_level example_levels 500 = 1 \<and>
   eligible_level example_levels 2500 = 2 \<and>
   eligible_level example_levels 500 \<le> eligible_level example_levels 2500"
proof -
  have v: "eligible_level example_levels 500 = 1" "eligible_level example_levels 2500 = 2"
    by (simp_all add: example_levels_def unlocked_def)
  have u: "unlocked 500 (example_levels ! 1)" "\<not> unlocked 500 (example_levels ! 2)"
    by (simp_all add: example_levels_def unlocked_def)
  have "(500::int) \<le> 2500 \<longrightarrow>
      eligible_level example_levels 500 \<le> eligible_level example_levels 2500"
    using vip_eligibility [of 500 "example_levels ! 1" example_levels 2500] by (elim conjE)
  then have "eligible_level example_levels 500 \<le> eligible_level example_levels 2500"
    by simp
  with v u show ?thesis by simp
qed

section \<open>Wallet deposit\<close>

text \<open>
  Claim C6. A deposit of \<open>d\<close> raises the coins balance by exactly \<open>d\<close>, appends exactly one
  transaction record, the one of this deposit, raises the VIP cumulative recharge total by
  \<open>d\<close>, and leaves the bonus and stars balances as they were.
\<close>

theorem deposit_effect:
  "coins_balance (wallet (deposit d acc)) = coins_balance (wallet acc) + d \<and>
   transactions (deposit d acc) =
     transactions acc @ [\<lparr>transaction_type = ''deposit'', transaction_amount = d,
                          transaction_status = ''completed''\<rparr>] \<and>
   length (transactions (deposit d acc)) = length (transactions acc) + 1 \<and>
   total_recharged (deposit d acc) = total_recharged acc + d \<and>
   bonus_balance (wallet (deposit d acc)) = bonus_balance (wallet acc) \<and>
   stars_balance (wallet (deposit d acc)) = stars_balance (wallet acc)"
  by (simp add: deposit_def)

text \<open>The run of the test record: 500 coins deposited on a balance of 1500.\<close>

lemma deposit_test_record:
  "coins_balance (wallet (deposit 500
      \<lparr>wallet = \<lparr>coins_balance = 1500, bonus_balance = 100, stars_balance = 0\<rparr>,
        transactions = [], total_recharged = 0, notifications = []\<rparr>)) = 2000 \<and>
   total_recharged (deposit 500
      \<lparr>wallet = \<lparr>coins_balance = 1500, bonus_balance = 100, stars_balance = 0\<rparr>,
        transactions = [], total_recharged = 0, notifications = []\<rparr>) = 500"
  by (simp add: deposit_def)

end
